theory Spec2Isabelle
  imports Main "HOL-Library.AList"
begin

section \<open>The bot service (discord-bot/index.js) over the messages table\<close>

text \<open>
  The service keeps one selfbot session per account, records direct messages into the
  \<open>messages\<close> table and sends messages through the backend's HTTP interface.  The
  table is the one of \<open>supabase-schema.sql\<close>; the discord.js client, \<open>fetch\<close>
  and the clock are the environment and enter every function as explicit parameters.
  A function that can throw returns the thrown value (\<open>Inl\<close>) or its result
  (\<open>Inr\<close>) together with the table as it is when the call ends.
\<close>

subsection \<open>Backend objects\<close>

record user =
  user_id :: string
  username :: string
  avatar :: "string option"

text \<open>A channel of the client's cache; \<open>recipient\<close> is read on DM channels only.\<close>

record channel =
  channel_id :: string
  channel_type :: string
  recipient :: user

text \<open>A message as discord.js delivers it; \<open>createdAt\<close> is an instant in milliseconds.\<close>

record message =
  msg_id :: string
  author :: user
  msg_channel :: channel
  content :: string
  system :: bool
  createdAt :: nat

subsection \<open>The messages table\<close>

datatype direction = Sent | Received

text \<open>
  One row of \<open>messages\<close>.  The generated \<open>id\<close> column is left out: no function
  of the service reads its value.  \<open>timestamp\<close> is the instant that the ISO string
  written by the service denotes.
\<close>

record row =
  account_id :: string
  discord_message_id :: "string option"
  discord_user_id :: string
  row_username :: string
  row_avatar :: "string option"
  row_direction :: direction
  row_content :: string
  timestamp :: nat

type_synonym store = "row list"

datatype db_error = UniqueViolation

text \<open>
  \<open>.from('messages').insert(r)\<close> under the schema: \<open>discord_message_id TEXT UNIQUE\<close>
  rejects a non-null id that some row already holds, whatever the account of that row;
  NULL ids never collide.  The NOT NULL columns and the CHECK on \<open>direction\<close> hold
  by the types of \<open>row\<close>.  Every session is created from a row of \<open>accounts\<close>, so
  the foreign key on \<open>account_id\<close> is taken as satisfied and \<open>accounts\<close> is not
  part of the model.
\<close>

definition insert_row :: "store \<Rightarrow> row \<Rightarrow> db_error + store" where
  "insert_row db r =
     (case discord_message_id r of
        None \<Rightarrow> Inr (db @ [r])
      | Some m \<Rightarrow>
          if Some m \<in> set (map discord_message_id db) then Inl UniqueViolation
          else Inr (db @ [r]))"

text \<open>
  \<open>.select('id').eq('discord_message_id', m).single()\<close>: the data is the row when
  exactly one row matches, and null when none or several do.
\<close>

definition select_single :: "store \<Rightarrow> string \<Rightarrow> row option" where
  "select_single db m =
     (case filter (\<lambda>r. discord_message_id r = Some m) db of
        [r] \<Rightarrow> Some r
      | _ \<Rightarrow> None)"

text \<open>The rows stored under an (account, remote message id) key, and under an id.\<close>

definition rows_for :: "store \<Rightarrow> string \<Rightarrow> string \<Rightarrow> row list" where
  "rows_for db a m = filter (\<lambda>r. account_id r = a \<and> discord_message_id r = Some m) db"

definition rows_with_id :: "store \<Rightarrow> string \<Rightarrow> row list" where
  "rows_with_id db m = filter (\<lambda>r. discord_message_id r = Some m) db"

text \<open>The UNIQUE constraint as a property of a table state.\<close>

definition unique_ids :: "store \<Rightarrow> bool" where
  "unique_ids db = distinct (filter (\<lambda>x. x \<noteq> None) (map discord_message_id db))"

subsection \<open>Thrown values\<close>

text \<open>
  \<open>Error m\<close> is \<open>new Error(m)\<close> of the service itself, \<open>PostgrestError\<close> the error
  object of a rejected insert, \<open>External m\<close> a value thrown by discord.js or by
  \<open>fetch\<close>, with its message.
\<close>

datatype js_error = Error string | PostgrestError db_error | External string

fun error_message :: "js_error \<Rightarrow> string" where
  "error_message (Error m) = m"
| "error_message (PostgrestError UniqueViolation) =
     ''duplicate key value violates unique constraint''"
| "error_message (External m) = m"

text \<open>The logged-in discord.js client: its own user and its channel cache.\<close>

record client =
  client_user :: user
  channels_cache :: "channel list"

subsection \<open>The environment\<close>

text \<open>The JSON body of a backend response, with the fields the service reads.\<close>

record json_body =
  j_message :: "string option"
  j_id :: "string option"
  j_content :: string
  j_timestamp :: "nat option"

text \<open>\<open>json\<close> is what \<open>response.json()\<close> resolves to, or the value it rejects with.\<close>

record response =
  status :: nat
  statusText :: string
  json :: "string + json_body"

record payload =
  mobile_network_type :: string
  p_content :: string
  nonce :: string
  tts :: bool
  flags :: nat

text \<open>
  What the service calls and does not define: \<open>history\<close> (the messages of a channel,
  newest first, or a failed fetch), \<open>login\<close> of a token, \<open>users_fetch\<close> and
  \<open>createDM\<close> of a session (given by its token), the POST of \<open>fetch\<close>,
  the 19 values of \<open>Math.floor(Math.random() * 9)\<close> and the clock.  A call that
  rejects gives the message of the value it throws (\<open>Inl\<close>); the service passes
  that value on as \<open>External\<close>.
\<close>

record backend =
  history :: "string \<Rightarrow> string + message list"
  login :: "string \<Rightarrow> string + client"
  users_fetch :: "string \<Rightarrow> string \<Rightarrow> string + user"
  createDM :: "string \<Rightarrow> user \<Rightarrow> string + channel"
  http_post :: "string \<Rightarrow> string \<Rightarrow> payload \<Rightarrow> string + response"
  draws :: "nat list"
  now :: nat

subsection \<open>A session: DiscordCRMBot\<close>

record bot =
  token :: string
  accountId :: string
  client :: client

definition avatar_url :: "user \<Rightarrow> string option" where
  "avatar_url u =
     (case avatar u of
        None \<Rightarrow> None
      | Some a \<Rightarrow>
          if a = [] then None
          else Some (''https://cdn.discordapp.com/avatars/'' @ user_id u @ ''/'' @ a @ ''.png''))"

text \<open>\<open>DiscordCRMBot.recordMessage\<close>: the row it builds, and the insert.\<close>

definition is_from_bot :: "bot \<Rightarrow> message \<Rightarrow> bool" where
  "is_from_bot b m = (user_id (author m) = user_id (client_user (client b)))"

definition recordMessage_data :: "bot \<Rightarrow> message \<Rightarrow> row" where
  "recordMessage_data b m =
     (let isFromBot = is_from_bot b m;
          otherUser = (if isFromBot then recipient (msg_channel m) else author m)
      in \<lparr> account_id = accountId b,
           discord_message_id = Some (msg_id m),
           discord_user_id = user_id otherUser,
           row_username = username otherUser,
           row_avatar = avatar_url otherUser,
           row_direction = (if isFromBot then Sent else Received),
           row_content = content m,
           timestamp = createdAt m \<rparr>)"

definition recordMessage :: "bot \<Rightarrow> store \<Rightarrow> message \<Rightarrow> (js_error + unit) \<times> store" where
  "recordMessage b db m =
     (case insert_row db (recordMessage_data b m) of
        Inl e \<Rightarrow> (Inl (PostgrestError e), db)
      | Inr db' \<Rightarrow> (Inr (), db'))"

text \<open>
  The \<open>messageCreate\<close> handler.  Its result is the error it caught and logged, if any,
  and the table afterwards.
\<close>

definition on_messageCreate :: "bot \<Rightarrow> store \<Rightarrow> message \<Rightarrow> js_error option \<times> store" where
  "on_messageCreate b db m =
     (if channel_type (msg_channel m) \<noteq> ''DM'' then (None, db)
      else if user_id (author m) = user_id (client_user (client b)) then (None, db)
      else (case recordMessage b db m of
              (Inl e, db') \<Rightarrow> (Some e, db')
            | (Inr _, db') \<Rightarrow> (None, db')))"

subsection \<open>History import: fetchExistingDMs\<close>

text \<open>
  The import runs when the client is ready; nothing it throws leaves it.  First the row
  built for a message of channel \<open>ch\<close>.
\<close>

definition history_data :: "bot \<Rightarrow> channel \<Rightarrow> message \<Rightarrow> row" where
  "history_data b ch m =
     \<lparr> account_id = accountId b,
       discord_message_id = Some (msg_id m),
       discord_user_id = user_id (recipient ch),
       row_username = username (recipient ch),
       row_avatar = avatar_url (recipient ch),
       row_direction = (if user_id (author m) = user_id (client_user (client b))
                        then Sent else Received),
       row_content = content m,
       timestamp = createdAt m \<rparr>"

text \<open>
  The three ways the body of the message loop ends once a message passed the filter:
  the row exists (\<open>continue\<close>), the insert failed (logged), the insert succeeded
  (counted).
\<close>

datatype import_outcome = AlreadyExists | SaveError db_error | Imported

definition save_existing :: "bot \<Rightarrow> channel \<Rightarrow> store \<Rightarrow> message \<Rightarrow> import_outcome \<times> store" where
  "save_existing b ch db m =
     (case select_single db (msg_id m) of
        Some _ \<Rightarrow> (AlreadyExists, db)
      | None \<Rightarrow>
          (case insert_row db (history_data b ch m) of
             Inl e \<Rightarrow> (SaveError e, db)
           | Inr db' \<Rightarrow> (Imported, db')))"

text \<open>The loop over \<open>sortedMessages\<close>; the state is the table and \<open>totalMessages\<close>.\<close>

fun import_messages :: "bot \<Rightarrow> channel \<Rightarrow> store \<times> nat \<Rightarrow> message list \<Rightarrow> store \<times> nat" where
  "import_messages b ch (db, totalMessages) [] = (db, totalMessages)"
| "import_messages b ch (db, totalMessages) (m # ms) =
     (if content m = [] \<or> system m then import_messages b ch (db, totalMessages) ms
      else (case save_existing b ch db m of
              (Imported, db') \<Rightarrow> import_messages b ch (db', totalMessages + 1) ms
            | (_, db') \<Rightarrow> import_messages b ch (db', totalMessages) ms))"

text \<open>
  \<open>channel.messages.fetch({ limit })\<close>: the backend either fails or answers with the
  newest \<open>limit\<close> messages of the channel, newest first.  \<open>history\<close> is the
  channel's whole history in that order.
\<close>

definition messages_fetch :: "backend \<Rightarrow> channel \<Rightarrow> nat \<Rightarrow> js_error + message list" where
  "messages_fetch env ch limit =
     (case history env (channel_id ch) of
        Inl e \<Rightarrow> Inl (External e)
      | Inr ms \<Rightarrow> Inr (take limit ms))"

definition import_channel :: "backend \<Rightarrow> bot \<Rightarrow> store \<times> nat \<Rightarrow> channel \<Rightarrow> store \<times> nat" where
  "import_channel env b st ch =
     (case messages_fetch env ch 50 of
        Inl e \<Rightarrow> st
      | Inr messages \<Rightarrow> import_messages b ch st (rev messages))"

fun import_channels :: "backend \<Rightarrow> bot \<Rightarrow> store \<times> nat \<Rightarrow> channel list \<Rightarrow> store \<times> nat" where
  "import_channels env b st [] = st"
| "import_channels env b st (ch # chs) = import_channels env b (import_channel env b st ch) chs"

definition fetchExistingDMs :: "backend \<Rightarrow> bot \<Rightarrow> store \<Rightarrow> store \<times> nat" where
  "fetchExistingDMs env b db =
     import_channels env b (db, 0)
       (filter (\<lambda>c. channel_type c = ''DM'') (channels_cache (client b)))"

subsection \<open>Sending: recordSentMessage and sendMessage\<close>

text \<open>The decimal digits of a number, as a template literal prints it.\<close>

fun show_nat :: "nat \<Rightarrow> string" where
  "show_nat n =
     (if n < 10 then [char_of (48 + n)]
      else show_nat (n div 10) @ [char_of (48 + n mod 10)])"

declare show_nat.simps [simp del]

definition response_ok :: "response \<Rightarrow> bool" where
  "response_ok r = (200 \<le> status r \<and> status r \<le> 299)"

definition sent_data :: "bot \<Rightarrow> nat \<Rightarrow> json_body \<Rightarrow> user \<Rightarrow> row" where
  "sent_data b t messageData rcp =
     \<lparr> account_id = accountId b,
       discord_message_id = j_id messageData,
       discord_user_id = user_id rcp,
       row_username = username rcp,
       row_avatar = avatar_url rcp,
       row_direction = Sent,
       row_content = j_content messageData,
       timestamp = (case j_timestamp messageData of Some ts \<Rightarrow> ts | None \<Rightarrow> t) \<rparr>"

text \<open>
  \<open>DiscordCRMBot.recordSentMessage\<close>; \<open>t\<close> is the clock, used when the body has
  no timestamp.
\<close>

definition recordSentMessage ::
  "bot \<Rightarrow> nat \<Rightarrow> store \<Rightarrow> json_body \<Rightarrow> string \<Rightarrow> (js_error + unit) \<times> store" where
  "recordSentMessage b t db messageData channelId =
     (case find (\<lambda>c. channel_id c = channelId) (channels_cache (client b)) of
        None \<Rightarrow> (Inr (), db)
      | Some ch \<Rightarrow>
          if channel_type ch \<noteq> ''DM'' then (Inr (), db)
          else (case insert_row db (sent_data b t messageData (recipient ch)) of
                  Inl e \<Rightarrow> (Inl (PostgrestError e), db)
                | Inr db' \<Rightarrow> (Inr (), db')))"

record send_result =
  success :: bool
  result_message :: string
  messageId :: "string option"
  result_content :: string

definition make_nonce :: "nat list \<Rightarrow> string" where
  "make_nonce ds = concat (map (\<lambda>d. show_nat (d + 1)) ds)"

definition make_payload :: "backend \<Rightarrow> string \<Rightarrow> payload" where
  "make_payload env c =
     \<lparr> mobile_network_type = ''unknown'', p_content = c,
       nonce = make_nonce (draws env), tts = False, flags = 0 \<rparr>"

text \<open>
  \<open>errorData.message || response.statusText\<close>, where \<open>errorData\<close> is the parsed
  body, or \<open>{}\<close> when the body does not parse.
\<close>

definition error_detail :: "response \<Rightarrow> string" where
  "error_detail r =
     (case (case json r of Inl _ \<Rightarrow> None | Inr d \<Rightarrow> j_message d) of
        None \<Rightarrow> statusText r
      | Some t \<Rightarrow> if t = [] then statusText r else t)"

definition api_error :: "response \<Rightarrow> js_error" where
  "api_error r = Error (''Discord API error '' @ show_nat (status r) @ '': '' @ error_detail r)"

text \<open>
  \<open>DiscordCRMBot.sendMessage\<close>: the POST, the check of the response, the recording
  inside its own \<open>try\<close>, whose error is logged and dropped, and the result.
\<close>

definition bot_sendMessage ::
  "backend \<Rightarrow> bot \<Rightarrow> store \<Rightarrow> string \<Rightarrow> string \<Rightarrow> (js_error + send_result) \<times> store" where
  "bot_sendMessage env b db channelId c =
     (case http_post env (token b) channelId (make_payload env c) of
        Inl e \<Rightarrow> (Inl (External e), db)
      | Inr r \<Rightarrow>
          if \<not> response_ok r then (Inl (api_error r), db)
          else (case json r of
                  Inl e \<Rightarrow> (Inl (External e), db)
                | Inr messageData \<Rightarrow>
                    (Inr \<lparr> success = True,
                           result_message = ''Message sent successfully'',
                           messageId = j_id messageData,
                           result_content = j_content messageData \<rparr>,
                     snd (recordSentMessage b (now env) db messageData channelId))))"

subsection \<open>The registry: BotManager\<close>

text \<open>
  \<open>bots\<close> is the \<open>Map\<close> of the manager, in insertion order.  \<open>live\<close> lists the
  accounts of the clients that are logged in and not yet destroyed.
\<close>

record manager =
  bots :: "(string \<times> bot) list"
  live :: "string list"

text \<open>
  \<open>new DiscordCRMBot(token, accountId)\<close> followed by \<open>start()\<close>: the login either
  throws, and \<open>start\<close> throws the same value again, or gives the logged-in client.
\<close>

definition start :: "backend \<Rightarrow> string \<Rightarrow> string \<Rightarrow> js_error + bot" where
  "start env tok a =
     (case login env tok of
        Inl e \<Rightarrow> Inl (External e)
      | Inr cl \<Rightarrow> Inr \<lparr> token = tok, accountId = a, client = cl \<rparr>)"

text \<open>\<open>BotManager.addBot\<close>: the entry is set after \<open>start\<close> has returned.\<close>

definition addBot ::
  "backend \<Rightarrow> manager \<Rightarrow> string \<Rightarrow> string \<Rightarrow> (js_error + unit) \<times> manager" where
  "addBot env mgr a tok =
     (if map_of (bots mgr) a \<noteq> None then (Inr (), mgr)
      else (case start env tok a of
              Inl e \<Rightarrow> (Inl e, mgr)
            | Inr b \<Rightarrow>
                (Inr (),
                 mgr \<lparr> bots := AList.update a b (bots mgr), live := live mgr @ [a] \<rparr>)))"

text \<open>
  \<open>addBot\<close> above is a call that runs to its end with no other call in between.  The
  source awaits \<open>bot.start()\<close> between \<open>has\<close> and \<open>set\<close>, and the change feed
  calls \<open>addBot\<close> from a handler of its own for every notification, so another call
  can run while this one waits.  \<open>addBot_begin\<close> is the part of a call up to the
  \<open>await\<close>: the check, the construction and the login, after which the new client is
  live.  \<open>addBot_resume\<close> is the part after it: the throw, or \<open>set\<close> and the return.
\<close>

datatype addBot_call = Returned | Awaiting "js_error + bot"

definition addBot_begin ::
  "backend \<Rightarrow> manager \<Rightarrow> string \<Rightarrow> string \<Rightarrow> addBot_call \<times> manager" where
  "addBot_begin env mgr a tok =
     (if map_of (bots mgr) a \<noteq> None then (Returned, mgr)
      else (case start env tok a of
              Inl e \<Rightarrow> (Awaiting (Inl e), mgr)
            | Inr b \<Rightarrow> (Awaiting (Inr b), mgr \<lparr> live := live mgr @ [a] \<rparr>)))"

fun addBot_resume :: "manager \<Rightarrow> string \<Rightarrow> addBot_call \<Rightarrow> (js_error + unit) \<times> manager" where
  "addBot_resume mgr a Returned = (Inr (), mgr)"
| "addBot_resume mgr a (Awaiting (Inl e)) = (Inl e, mgr)"
| "addBot_resume mgr a (Awaiting (Inr b)) =
     (Inr (), mgr \<lparr> bots := AList.update a b (bots mgr) \<rparr>)"

text \<open>
  Two calls for the same account and token, the second begun while the first awaits its
  \<open>start\<close>; then the first resumes, then the second.
\<close>

definition addBot_overlapping ::
  "backend \<Rightarrow> manager \<Rightarrow> string \<Rightarrow> string
     \<Rightarrow> (js_error + unit) \<times> (js_error + unit) \<times> manager" where
  "addBot_overlapping env mgr a tok =
     (let (call1, mgr1) = addBot_begin env mgr a tok;
          (call2, mgr2) = addBot_begin env mgr1 a tok;
          (res1, mgr3) = addBot_resume mgr2 a call1;
          (res2, mgr4) = addBot_resume mgr3 a call2
      in (res1, res2, mgr4))"

text \<open>
  \<open>BotManager.removeBot\<close>: \<open>stop\<close> destroys the client of the entry, then the
  entry is deleted.
\<close>

definition removeBot :: "manager \<Rightarrow> string \<Rightarrow> (js_error + unit) \<times> manager" where
  "removeBot mgr a =
     (case map_of (bots mgr) a of
        None \<Rightarrow> (Inr (), mgr)
      | Some b \<Rightarrow>
          (Inr (), mgr \<lparr> bots := AList.delete a (bots mgr), live := remove1 a (live mgr) \<rparr>))"

text \<open>\<open>BotManager.sendMessage\<close> and the error of its first check.\<close>

definition no_bot_found :: "string \<Rightarrow> js_error" where
  "no_bot_found a = Error (''No bot found for account '' @ a)"

definition sendMessage ::
  "backend \<Rightarrow> manager \<Rightarrow> store \<Rightarrow> string \<Rightarrow> string \<Rightarrow> string
     \<Rightarrow> (js_error + send_result) \<times> store" where
  "sendMessage env mgr db a userId c =
     (case map_of (bots mgr) a of
        None \<Rightarrow> (Inl (no_bot_found a), db)
      | Some b \<Rightarrow>
          (case users_fetch env (token b) userId of
             Inl e \<Rightarrow> (Inl (External e), db)
           | Inr u \<Rightarrow>
               (case createDM env (token b) u of
                  Inl e \<Rightarrow> (Inl (External e), db)
                | Inr dmChannel \<Rightarrow> bot_sendMessage env b db (channel_id dmChannel) c)))"

text \<open>
  The states of the registry that \<open>addBot\<close> and \<open>removeBot\<close> produce from the
  empty one: one entry per account, a live client for each entry and for nothing else,
  and every session filed under its own account.
\<close>

definition registry_ok :: "manager \<Rightarrow> bool" where
  "registry_ok mgr = list_all (\<lambda>p. accountId (snd p) = fst p) (bots mgr)"

definition registry_inv :: "manager \<Rightarrow> bool" where
  "registry_inv mgr =
     (distinct (map fst (bots mgr)) \<and> live mgr = map fst (bots mgr) \<and> registry_ok mgr)"

text \<open>
  What \<open>BotManager.sendMessage\<close> takes from discord.js when it resolves the peer of
  a registered session: \<open>users.fetch(userId)\<close> gives the user with that id, and
  \<open>createDM\<close> gives the DM channel with that user, which the client then holds in
  its channel cache.
\<close>

definition library_resolves :: "backend \<Rightarrow> manager \<Rightarrow> string \<Rightarrow> string \<Rightarrow> bool" where
  "library_resolves env mgr a userId =
     (case map_of (bots mgr) a of
        None \<Rightarrow> True
      | Some b \<Rightarrow>
          (case users_fetch env (token b) userId of
             Inl _ \<Rightarrow> True
           | Inr u \<Rightarrow>
               user_id u = userId
               \<and> (case createDM env (token b) u of
                     Inl _ \<Rightarrow> True
                   | Inr dmc \<Rightarrow>
                       find (\<lambda>x. channel_id x = channel_id dmc) (channels_cache (client b))
                         = Some dmc
                       \<and> channel_type dmc = ''DM''
                       \<and> user_id (recipient dmc) = userId)))"

text \<open>
  \<open>POST /send-message\<close>: the status and JSON body of the reply.  A field of the request
  is falsy when it is missing or the empty string.
\<close>

datatype reply_body = Result_json send_result | Error_json string

definition post_send_message ::
  "backend \<Rightarrow> manager \<Rightarrow> store \<Rightarrow> string option \<Rightarrow> string option \<Rightarrow> string option
     \<Rightarrow> (nat \<times> reply_body) \<times> store" where
  "post_send_message env mgr db accountId_field userId_field content_field =
     (case (accountId_field, userId_field, content_field) of
        (Some a, Some userId, Some c) \<Rightarrow>
          if a = [] \<or> userId = [] \<or> c = []
          then ((400, Error_json ''Missing required fields''), db)
          else (case sendMessage env mgr db a userId c of
                  (Inr res, db') \<Rightarrow> ((200, Result_json res), db')
                | (Inl e, db') \<Rightarrow> ((500, Error_json (error_message e)), db'))
      | _ \<Rightarrow> ((400, Error_json ''Missing required fields''), db))"

subsection \<open>Persisting one event by either path\<close>

text \<open>
  The two ways an event with a remote message id reaches the table: \<open>recordMessage\<close>
  on the live stream, and the check-then-insert of the import loop on the channel the
  message belongs to.
\<close>

datatype path = Live | History

definition persist_via :: "path \<Rightarrow> bot \<Rightarrow> store \<Rightarrow> message \<Rightarrow> store" where
  "persist_via p b db m =
     (case p of
        Live \<Rightarrow> snd (recordMessage b db m)
      | History \<Rightarrow> snd (save_existing b (msg_channel m) db m))"

text \<open>
  The messages the import loop does not persist: empty content, system messages, and
  ids a row already holds.
\<close>

definition skipped :: "store \<Rightarrow> message \<Rightarrow> bool" where
  "skipped db m =
     (content m = [] \<or> system m \<or> Some (msg_id m) \<in> set (map discord_message_id db))"

text \<open>
  A row built by the import from a message of the history of one of the given channels.
\<close>

definition from_history :: "backend \<Rightarrow> bot \<Rightarrow> channel list \<Rightarrow> row \<Rightarrow> bool" where
  "from_history env b chs r =
     (\<exists>ch\<in>set chs. \<exists>hist. history env (channel_id ch) = Inr hist
        \<and> (\<exists>m\<in>set hist. r = history_data b ch m))"

subsection \<open>A small scenario\<close>

text \<open>
  Account \<open>a1\<close> is the session of user 100, account \<open>a2\<close> the session of user 200;
  the two users share the DM channel \<open>c1\<close>.  \<open>msg_in\<close> is written by user 200 and
  \<open>msg_out\<close> by user 100.  \<open>row_a2_m1\<close> is the row account \<open>a2\<close> stores for
  \<open>msg_in\<close> when it sends it.
\<close>

definition self1 :: user where
  "self1 = \<lparr>user_id = ''100'', username = ''me'', avatar = None\<rparr>"

definition peer1 :: user where
  "peer1 = \<lparr>user_id = ''200'', username = ''peer'', avatar = Some ''abc''\<rparr>"

definition dm1 :: channel where
  "dm1 = \<lparr>channel_id = ''c1'', channel_type = ''DM'', recipient = peer1\<rparr>"

definition bot1 :: bot where
  "bot1 = \<lparr>token = ''t1'', accountId = ''a1'',
            client = \<lparr>client_user = self1, channels_cache = [dm1]\<rparr>\<rparr>"

definition msg_in :: message where
  "msg_in = \<lparr>msg_id = ''m1'', author = peer1, msg_channel = dm1, content = ''hi'',
              system = False, createdAt = 1000\<rparr>"

definition msg_out :: message where
  "msg_out = \<lparr>msg_id = ''m2'', author = self1, msg_channel = dm1, content = ''hello'',
               system = False, createdAt = 2000\<rparr>"

definition row_a2_m1 :: row where
  "row_a2_m1 = \<lparr>account_id = ''a2'', discord_message_id = Some ''m1'',
                 discord_user_id = ''100'', row_username = ''me'', row_avatar = None,
                 row_direction = Sent, row_content = ''hi'', timestamp = 1000\<rparr>"

definition row_a1_m1 :: row where
  "row_a1_m1 = \<lparr>account_id = ''a1'', discord_message_id = Some ''m1'',
                 discord_user_id = ''200'', row_username = ''peer'',
                 row_avatar = Some ''https://cdn.discordapp.com/avatars/200/abc.png'',
                 row_direction = Received, row_content = ''hi'', timestamp = 1000\<rparr>"

definition row_a1_m2 :: row where
  "row_a1_m2 = \<lparr>account_id = ''a1'', discord_message_id = Some ''m2'',
                 discord_user_id = ''200'', row_username = ''peer'',
                 row_avatar = Some ''https://cdn.discordapp.com/avatars/200/abc.png'',
                 row_direction = Sent, row_content = ''hello'', timestamp = 2000\<rparr>"

text \<open>
  A backend in which channel \<open>c1\<close> holds \<open>msg_out\<close> and \<open>msg_in\<close>, token
  \<open>t1\<close> logs in as user 100, and a POST is answered with the new message \<open>m2\<close>.
\<close>

definition env1 :: backend where
  "env1 = \<lparr>
     history = (\<lambda>c. if c = ''c1'' then Inr [msg_out, msg_in] else Inl ''Unknown Channel''),
     login = (\<lambda>t. if t = ''t1'' then Inr \<lparr>client_user = self1, channels_cache = [dm1]\<rparr>
                   else Inl ''An invalid token was provided.''),
     users_fetch = (\<lambda>t u. if u = ''200'' then Inr peer1 else Inl ''Unknown User''),
     createDM = (\<lambda>t u. Inr dm1),
     http_post = (\<lambda>t c p. Inr \<lparr>status = 200, statusText = ''OK'',
                   json = Inr \<lparr>j_message = None, j_id = Some ''m2'',
                                j_content = p_content p, j_timestamp = Some 2000\<rparr>\<rparr>),
     draws = [0, 1, 2, 3, 4, 5, 6, 7, 8, 0, 1, 2, 3, 4, 5, 6, 7, 8, 0],
     now = 3000 \<rparr>"

text \<open>The same backend answering every POST with 429, and with 503.\<close>

definition resp429 :: response where
  "resp429 = \<lparr>status = 429, statusText = ''Too Many Requests'',
               json = Inr \<lparr>j_message = Some ''You are being rate limited.'', j_id = None,
                            j_content = [], j_timestamp = None\<rparr>\<rparr>"

definition resp503 :: response where
  "resp503 = \<lparr>status = 503, statusText = ''Service Unavailable'',
               json = Inl ''Unexpected token < in JSON''\<rparr>"

definition env429 :: backend where
  "env429 = env1 \<lparr>http_post := (\<lambda>t c p. Inr resp429)\<rparr>"

definition env503 :: backend where
  "env503 = env1 \<lparr>http_post := (\<lambda>t c p. Inr resp503)\<rparr>"

definition mgr1 :: manager where
  "mgr1 = \<lparr>bots = [(''a1'', bot1)], live = [''a1'']\<rparr>"

definition mgr0 :: manager where
  "mgr0 = \<lparr>bots = [], live = []\<rparr>"

text \<open>The row account \<open>a2\<close> stores when its live stream delivers \<open>m2\<close>.\<close>

definition row_a2_m2 :: row where
  "row_a2_m2 = \<lparr>account_id = ''a2'', discord_message_id = Some ''m2'',
                 discord_user_id = ''100'', row_username = ''me'', row_avatar = None,
                 row_direction = Received, row_content = ''hello'', timestamp = 2000\<rparr>"

definition result_m2 :: send_result where
  "result_m2 = \<lparr>success = True, result_message = ''Message sent successfully'',
                 messageId = Some ''m2'', result_content = ''hello''\<rparr>"

lemmas scenario_defs =
  self1_def peer1_def dm1_def bot1_def msg_in_def msg_out_def row_a2_m1_def row_a1_m1_def
  row_a1_m2_def

section \<open>Properties\<close>

subsection \<open>Rows and inserts\<close>

lemma recordMessage_data_sel [simp]:
  "account_id (recordMessage_data b m) = accountId b"
  "discord_message_id (recordMessage_data b m) = Some (msg_id m)"
  "row_content (recordMessage_data b m) = content m"
  "timestamp (recordMessage_data b m) = createdAt m"
  "row_direction (recordMessage_data b m) =
     (if user_id (author m) = user_id (client_user (client b)) then Sent else Received)"
  by (simp_all add: recordMessage_data_def is_from_bot_def Let_def)

lemma history_data_sel [simp]:
  "account_id (history_data b ch m) = accountId b"
  "discord_message_id (history_data b ch m) = Some (msg_id m)"
  "row_content (history_data b ch m) = content m"
  "timestamp (history_data b ch m) = createdAt m"
  "discord_user_id (history_data b ch m) = user_id (recipient ch)"
  "row_direction (history_data b ch m) =
     (if user_id (author m) = user_id (client_user (client b)) then Sent else Received)"
  by (simp_all add: history_data_def)

lemma insert_row_fresh:
  "discord_message_id r = Some m \<Longrightarrow> Some m \<notin> set (map discord_message_id db)
   \<Longrightarrow> insert_row db r = Inr (db @ [r])"
  by (simp add: insert_row_def)

lemma insert_row_dup:
  "discord_message_id r = Some m \<Longrightarrow> Some m \<in> set (map discord_message_id db)
   \<Longrightarrow> insert_row db r = Inl UniqueViolation"
  by (simp add: insert_row_def)

lemma insert_row_Inr: "insert_row db r = Inr db' \<Longrightarrow> db' = db @ [r]"
  by (auto simp: insert_row_def split: option.splits if_splits)

lemma rows_with_id_empty:
  "rows_with_id db m = [] \<longleftrightarrow> Some m \<notin> set (map discord_message_id db)"
  by (force simp: rows_with_id_def filter_empty_conv)

lemma unique_ids_length:
  "unique_ids db \<Longrightarrow> length (rows_with_id db m) \<le> 1"
proof (induction db)
  case Nil
  then show ?case by (simp add: rows_with_id_def)
next
  case (Cons r db)
  then have u: "unique_ids db" by (auto simp: unique_ids_def split: if_splits)
  show ?case
  proof (cases "discord_message_id r = Some m")
    case True
    with Cons.prems have "Some m \<notin> set (map discord_message_id db)"
      by (auto simp: unique_ids_def)
    then have "rows_with_id db m = []" by (simp add: rows_with_id_empty)
    with True show ?thesis by (simp add: rows_with_id_def)
  next
    case False
    with Cons.IH [OF u] show ?thesis by (simp add: rows_with_id_def)
  qed
qed

lemma select_single_iff:
  assumes "unique_ids db"
  shows "select_single db m \<noteq> None \<longleftrightarrow> Some m \<in> set (map discord_message_id db)"
proof -
  have l: "length (rows_with_id db m) \<le> 1" using assms by (rule unique_ids_length)
  show ?thesis
  proof (cases "rows_with_id db m")
    case Nil
    then show ?thesis
      using rows_with_id_empty [of db m] by (simp add: select_single_def rows_with_id_def)
  next
    case (Cons r rs)
    with l have "rs = []" by simp
    with Cons show ?thesis
      using rows_with_id_empty [of db m] by (simp add: select_single_def rows_with_id_def)
  qed
qed

lemma select_single_None_fresh:
  "Some m \<notin> set (map discord_message_id db) \<Longrightarrow> select_single db m = None"
  using rows_with_id_empty [of db m] by (simp add: select_single_def rows_with_id_def)

lemma unique_ids_append:
  "unique_ids db \<Longrightarrow> discord_message_id r = Some m
   \<Longrightarrow> Some m \<notin> set (map discord_message_id db) \<Longrightarrow> unique_ids (db @ [r])"
  by (auto simp: unique_ids_def)

subsection \<open>Dedupe\<close>

text \<open>What one persist does, by whether the id is already stored.\<close>

lemma persist_via_fresh:
  "Some (msg_id m) \<notin> set (map discord_message_id db) \<Longrightarrow>
   \<exists>r. persist_via p b db m = db @ [r] \<and> account_id r = accountId b
       \<and> discord_message_id r = Some (msg_id m)"
  by (cases p)
     (auto simp: persist_via_def recordMessage_def save_existing_def insert_row_fresh
        select_single_None_fresh)

lemma persist_via_stored:
  "Some (msg_id m) \<in> set (map discord_message_id db) \<Longrightarrow> persist_via p b db m = db"
  by (cases p)
     (auto simp: persist_via_def recordMessage_def save_existing_def insert_row_dup
        split: option.splits)

lemma persist_via_twice: "persist_via q b (persist_via p b db m) m = persist_via p b db m"
proof (cases "Some (msg_id m) \<in> set (map discord_message_id db)")
  case True
  then show ?thesis by (simp add: persist_via_stored)
next
  case False
  then obtain r where r: "persist_via p b db m = db @ [r]"
      "discord_message_id r = Some (msg_id m)"
    using persist_via_fresh [of m db p b] by blast
  then have "Some (msg_id m) \<in> set (map discord_message_id (persist_via p b db m))" by simp
  then show ?thesis by (rule persist_via_stored)
qed

text \<open>
  C1, as the code has it.  The key of the table is the remote message id alone: the
  schema declares \<open>discord_message_id\<close> UNIQUE and the import looks a message up by
  that column only.  Let the table satisfy the constraint, and let no other account hold
  the id of the event.  Then persisting the event twice, by any two of the live path and
  the import path, leaves exactly one row for (account, id) and exactly one row for the
  id; the second persist changes nothing; the constraint still holds.
\<close>

theorem dedupe_idempotence:
  assumes u: "unique_ids db"
    and own: "\<forall>r\<in>set db. discord_message_id r = Some (msg_id m) \<longrightarrow> account_id r = accountId b"
  shows "persist_via q b (persist_via p b db m) m = persist_via p b db m
       \<and> length (rows_for (persist_via q b (persist_via p b db m) m) (accountId b) (msg_id m)) = 1
       \<and> length (rows_with_id (persist_via q b (persist_via p b db m) m) (msg_id m)) = 1
       \<and> unique_ids (persist_via q b (persist_via p b db m) m)"
proof -
  let ?db1 = "persist_via p b db m"
  have tw: "persist_via q b ?db1 m = ?db1" by (rule persist_via_twice)
  have own_eq: "rows_for db (accountId b) (msg_id m) = rows_with_id db (msg_id m)"
    using own unfolding rows_for_def rows_with_id_def by (intro filter_cong) auto
  have "length (rows_for ?db1 (accountId b) (msg_id m)) = 1
      \<and> length (rows_with_id ?db1 (msg_id m)) = 1 \<and> unique_ids ?db1"
  proof (cases "Some (msg_id m) \<in> set (map discord_message_id db)")
    case True
    then have e: "?db1 = db" by (simp add: persist_via_stored)
    from True have "rows_with_id db (msg_id m) \<noteq> []" by (simp add: rows_with_id_empty)
    with unique_ids_length [OF u, of "msg_id m"] have "length (rows_with_id db (msg_id m)) = 1"
      by (cases "rows_with_id db (msg_id m)") auto
    with e own_eq u show ?thesis by simp
  next
    case False
    then obtain r where r: "?db1 = db @ [r]" "account_id r = accountId b"
        "discord_message_id r = Some (msg_id m)"
      using persist_via_fresh [of m db p b] by blast
    from False have "rows_with_id db (msg_id m) = []" by (simp add: rows_with_id_empty)
    with r own_eq have "length (rows_for ?db1 (accountId b) (msg_id m)) = 1"
      "length (rows_with_id ?db1 (msg_id m)) = 1"
      by (simp_all add: rows_for_def rows_with_id_def)
    moreover have "unique_ids ?db1" using r False u by (simp add: unique_ids_append)
    ultimately show ?thesis by simp
  qed
  with tw show ?thesis by simp
qed

text \<open>
  The event \<open>msg_in\<close> reaches an empty table first on the live stream and then by the
  import: the table holds the one row \<open>row_a1_m1\<close>.
\<close>

theorem dedupe_idempotence_witness:
  "unique_ids []
   \<and> persist_via History bot1 (persist_via Live bot1 [] msg_in) msg_in = [row_a1_m1]
   \<and> length (rows_for (persist_via History bot1 (persist_via Live bot1 [] msg_in) msg_in)
        ''a1'' ''m1'') = 1"
proof -
  have u: "unique_ids []" by (simp add: unique_ids_def)
  have own: "\<forall>r\<in>set []. discord_message_id r = Some (msg_id msg_in)
               \<longrightarrow> account_id r = accountId bot1"
    by simp
  have first: "persist_via Live bot1 [] msg_in = [row_a1_m1]"
    by (simp add: persist_via_def recordMessage_def insert_row_def recordMessage_data_def
        is_from_bot_def avatar_url_def scenario_defs)
  have key: "accountId bot1 = ''a1''" "msg_id msg_in = ''m1''"
    by (simp_all add: bot1_def msg_in_def)
  from dedupe_idempotence [OF u own, of History Live] first u show ?thesis
    by (auto simp: key)
qed

text \<open>
  C1 as stated fails when another account holds the id.  Account \<open>a2\<close> has stored
  \<open>m1\<close>; both persists of \<open>msg_in\<close> for account \<open>a1\<close> write nothing, and the key
  \<open>(a1, m1)\<close> has no row.
\<close>

theorem dedupe_other_account_counterexample:
  "unique_ids [row_a2_m1]
   \<and> persist_via History bot1 (persist_via Live bot1 [row_a2_m1] msg_in) msg_in = [row_a2_m1]
   \<and> rows_for (persist_via History bot1 (persist_via Live bot1 [row_a2_m1] msg_in) msg_in)
        (accountId bot1) (msg_id msg_in) = []"
  by (simp add: unique_ids_def persist_via_def recordMessage_def save_existing_def
      insert_row_def select_single_def rows_for_def scenario_defs)

subsection \<open>History import\<close>

lemma save_existing_fresh:
  "Some (msg_id m) \<notin> set (map discord_message_id db)
   \<Longrightarrow> save_existing b ch db m = (Imported, db @ [history_data b ch m])"
  by (simp add: save_existing_def select_single_None_fresh insert_row_fresh)

lemma save_existing_stored:
  "Some (msg_id m) \<in> set (map discord_message_id db)
   \<Longrightarrow> save_existing b ch db m = (AlreadyExists, db)
     \<or> save_existing b ch db m = (SaveError UniqueViolation, db)"
  by (auto simp: save_existing_def insert_row_dup split: option.splits)

lemma save_existing_stored_unique:
  "unique_ids db \<Longrightarrow> Some (msg_id m) \<in> set (map discord_message_id db)
   \<Longrightarrow> save_existing b ch db m = (AlreadyExists, db)"
  using select_single_iff [of db "msg_id m"]
  by (auto simp: save_existing_def split: option.splits)

text \<open>One turn of the message loop: a skipped message changes nothing, any other is appended.\<close>

lemma import_messages_step:
  "import_messages b ch (db, n) (m # ms) =
     (if skipped db m then import_messages b ch (db, n) ms
      else import_messages b ch (db @ [history_data b ch m], n + 1) ms)"
proof (cases "Some (msg_id m) \<in> set (map discord_message_id db)")
  case True
  from save_existing_stored [OF True, of b ch] show ?thesis
    using True by (auto simp: skipped_def)
next
  case False
  then show ?thesis by (simp add: skipped_def save_existing_fresh)
qed

lemma import_messages_rows:
  "\<exists>kept. fst (import_messages b ch (db, n) ms) = db @ map (history_data b ch) kept
     \<and> set kept \<subseteq> set ms"
proof (induction ms arbitrary: db n)
  case Nil
  show ?case by simp
next
  case (Cons m ms)
  show ?case
  proof (cases "skipped db m")
    case True
    with Cons.IH [of db n] show ?thesis
      by (auto simp: import_messages_step simp del: import_messages.simps)
  next
    case False
    from Cons.IH [of "db @ [history_data b ch m]" "n + 1"] obtain kept where
      k: "fst (import_messages b ch (db @ [history_data b ch m], n + 1) ms)
            = (db @ [history_data b ch m]) @ map (history_data b ch) kept"
         "set kept \<subseteq> set ms" by blast
    have "fst (import_messages b ch (db, n) (m # ms))
            = db @ map (history_data b ch) (m # kept) \<and> set (m # kept) \<subseteq> set (m # ms)"
      using False k by (auto simp: import_messages_step simp del: import_messages.simps)
    then show ?thesis by blast
  qed
qed

text \<open>On a page without repeated ids the loop is a filter of the page.\<close>

lemma import_messages_filter:
  "distinct (map msg_id ms) \<Longrightarrow>
   import_messages b ch (db, n) ms =
     (db @ map (history_data b ch) (filter (\<lambda>m. \<not> skipped db m) ms),
      n + length (filter (\<lambda>m. \<not> skipped db m) ms))"
proof (induction ms arbitrary: db n)
  case Nil
  show ?case by simp
next
  case (Cons m ms)
  from Cons.prems have d: "distinct (map msg_id ms)" by simp
  from Cons.prems have "msg_id m \<notin> set (map msg_id ms)" by simp
  then have nm: "\<forall>x\<in>set ms. msg_id x \<noteq> msg_id m" by (auto simp: image_iff)
  show ?case
  proof (cases "skipped db m")
    case True
    with Cons.IH [OF d, of db n] show ?thesis
      by (simp add: import_messages_step del: import_messages.simps)
  next
    case False
    have "filter (\<lambda>x. \<not> skipped (db @ [history_data b ch m]) x) ms
            = filter (\<lambda>x. \<not> skipped db x) ms"
      using nm by (intro filter_cong) (auto simp: skipped_def)
    with Cons.IH [OF d, of "db @ [history_data b ch m]" "n + 1"] False show ?thesis
      by (simp add: import_messages_step del: import_messages.simps)
  qed
qed

lemma newest_first_page:
  assumes "sorted (map createdAt (rev hist))"
  shows "sorted (map createdAt (rev (take k hist)))"
proof -
  have "rev (take k hist) = drop (length hist - k) (rev hist)" by (simp add: rev_take)
  with assms show ?thesis by (simp add: drop_map [symmetric])
qed

text \<open>
  C3.  The fetch of a channel succeeds with the newest messages of its history, at most
  50, no id twice.  Then the rows the import appends are the rows of the page's
  non-skipped messages, in the reverse of the delivery order.  When the delivery is
  newest first, the appended rows are in ascending order of timestamp, so reading them
  back ordered by timestamp gives them in the order they were stored.
\<close>

theorem chronological_import:
  assumes fetch: "history env (channel_id ch) = Inr hist"
    and ids: "distinct (map msg_id hist)"
  shows "length (take 50 hist) \<le> 50
       \<and> fst (import_channel env b (db, n) ch)
           = db @ map (history_data b ch) (filter (\<lambda>m. \<not> skipped db m) (rev (take 50 hist)))
       \<and> (sorted (map createdAt (rev hist)) \<longrightarrow>
            sorted (map timestamp
              (map (history_data b ch) (filter (\<lambda>m. \<not> skipped db m) (rev (take 50 hist)))))
          \<and> sort_key timestamp
              (map (history_data b ch) (filter (\<lambda>m. \<not> skipped db m) (rev (take 50 hist))))
            = map (history_data b ch) (filter (\<lambda>m. \<not> skipped db m) (rev (take 50 hist))))"
proof -
  let ?page = "rev (take 50 hist)"
  let ?new = "map (history_data b ch) (filter (\<lambda>m. \<not> skipped db m) ?page)"
  from ids have "distinct (map msg_id ?page)"
    by (simp add: rev_map [symmetric] take_map [symmetric])
  then have imp: "fst (import_channel env b (db, n) ch) = db @ ?new"
    using fetch by (simp add: import_channel_def messages_fetch_def import_messages_filter)
  have srt: "sorted (map timestamp ?new)" if "sorted (map createdAt (rev hist))"
  proof -
    from that have "sorted (map createdAt ?page)" by (rule newest_first_page)
    then have "sorted (map createdAt (filter (\<lambda>m. \<not> skipped db m) ?page))"
      by (rule sorted_filter)
    moreover have "map timestamp ?new = map createdAt (filter (\<lambda>m. \<not> skipped db m) ?page)"
      by (simp add: comp_def)
    ultimately show ?thesis by (simp add: comp_def)
  qed
  from imp srt show ?thesis by (auto intro: sort_key_id_if_sorted)
qed

text \<open>
  Channel \<open>c1\<close> delivers \<open>msg_out\<close> (instant 2000) before \<open>msg_in\<close> (instant 1000);
  the import stores the row of \<open>msg_in\<close> first.
\<close>

theorem chronological_import_witness:
  "history env1 (channel_id dm1) = Inr [msg_out, msg_in]
   \<and> distinct (map msg_id [msg_out, msg_in])
   \<and> sorted (map createdAt (rev [msg_out, msg_in]))
   \<and> fst (import_channel env1 bot1 ([], 0) dm1) = [row_a1_m1, row_a1_m2]
   \<and> sort_key timestamp [row_a1_m1, row_a1_m2] = [row_a1_m1, row_a1_m2]"
proof -
  have fetch: "history env1 (channel_id dm1) = Inr [msg_out, msg_in]"
    by (simp add: env1_def dm1_def)
  have ids: "distinct (map msg_id [msg_out, msg_in])"
    by (simp add: msg_in_def msg_out_def)
  have newest: "sorted (map createdAt (rev [msg_out, msg_in]))"
    by (simp add: msg_in_def msg_out_def)
  have new: "map (history_data bot1 dm1)
               (filter (\<lambda>m. \<not> skipped [] m) (rev (take 50 [msg_out, msg_in])))
             = [row_a1_m1, row_a1_m2]"
    by (simp add: skipped_def history_data_def avatar_url_def scenario_defs)
  from chronological_import [OF fetch ids, of bot1 "[]" 0] fetch ids newest show ?thesis
    unfolding new by simp
qed

subsection \<open>Direction\<close>

text \<open>Every row the import appends comes from a message of a cached channel's history.\<close>

lemma import_channel_rows:
  "\<exists>new. fst (import_channel env b (db, n) ch) = db @ new
     \<and> (\<forall>r\<in>set new. from_history env b [ch] r)"
proof (cases "history env (channel_id ch)")
  case (Inl e)
  then show ?thesis by (simp add: import_channel_def messages_fetch_def)
next
  case (Inr hist)
  from import_messages_rows [of b ch db n "rev (take 50 hist)"] obtain kept where
    k: "fst (import_messages b ch (db, n) (rev (take 50 hist))) = db @ map (history_data b ch) kept"
    "set kept \<subseteq> set (rev (take 50 hist))" by blast
  then have "set kept \<subseteq> set hist" by (auto dest: in_set_takeD)
  with Inr have "\<forall>r\<in>set (map (history_data b ch) kept). from_history env b [ch] r"
    by (auto simp: from_history_def)
  with k Inr show ?thesis
    by (auto simp: import_channel_def messages_fetch_def)
qed

lemma from_history_mono:
  "from_history env b chs r \<Longrightarrow> set chs \<subseteq> set chs' \<Longrightarrow> from_history env b chs' r"
  by (auto simp: from_history_def)

lemma import_channels_rows:
  "\<exists>new. fst (import_channels env b (db, n) chs) = db @ new
     \<and> (\<forall>r\<in>set new. from_history env b chs r)"
proof (induction chs arbitrary: db n)
  case Nil
  show ?case by simp
next
  case (Cons ch chs)
  obtain db1 n1 where st: "import_channel env b (db, n) ch = (db1, n1)"
    by (cases "import_channel env b (db, n) ch")
  from import_channel_rows [of env b db n ch] st obtain new1 where
    n1: "db1 = db @ new1" "\<forall>r\<in>set new1. from_history env b [ch] r" by auto
  from Cons.IH [of db1 n1] obtain new2 where
    n2: "fst (import_channels env b (db1, n1) chs) = db1 @ new2"
    "\<forall>r\<in>set new2. from_history env b chs r" by blast
  have "\<forall>r\<in>set (new1 @ new2). from_history env b (ch # chs) r"
    using n1(2) n2(2) by (auto intro: from_history_mono)
  moreover have "fst (import_channels env b (db, n) (ch # chs)) = db @ (new1 @ new2)"
    using st n1(1) n2(1) by simp
  ultimately show ?case by blast
qed

lemma fetchExistingDMs_rows:
  "\<exists>new. fst (fetchExistingDMs env b db) = db @ new
     \<and> (\<forall>r\<in>set new. from_history env b (channels_cache (client b)) r)"
proof -
  let ?dms = "filter (\<lambda>c. channel_type c = ''DM'') (channels_cache (client b))"
  from import_channels_rows [of env b db 0 ?dms] obtain new where
    "fst (import_channels env b (db, 0) ?dms) = db @ new"
    "\<forall>r\<in>set new. from_history env b ?dms r" by blast
  then show ?thesis
    by (auto simp: fetchExistingDMs_def intro: from_history_mono)
qed

text \<open>
  C4.  \<open>recordMessage\<close> leaves the table as it is or appends the row of its event,
  and that row has direction \<open>Sent\<close> exactly when the author's id is the id of the
  session's own user, and \<open>Received\<close> exactly when it is not.  Every row that
  \<open>fetchExistingDMs\<close> appends is the row of a message in the history of a cached
  channel, with direction \<open>Sent\<close> exactly when the author of that message is the
  session's own user, and \<open>Received\<close> exactly when it is not.
\<close>

theorem direction_classification:
  "(snd (recordMessage b db m) = db
      \<or> snd (recordMessage b db m) = db @ [recordMessage_data b m])
   \<and> ((row_direction (recordMessage_data b m) = Sent)
        = (user_id (author m) = user_id (client_user (client b))))
   \<and> ((row_direction (recordMessage_data b m) = Received)
        = (user_id (author m) \<noteq> user_id (client_user (client b))))
   \<and> (\<exists>new. fst (fetchExistingDMs env b db) = db @ new
         \<and> (\<forall>r\<in>set new. \<exists>ch\<in>set (channels_cache (client b)). \<exists>hist.
               history env (channel_id ch) = Inr hist
             \<and> (\<exists>k\<in>set hist. r = history_data b ch k
                 \<and> ((row_direction r = Sent)
                        = (user_id (author k) = user_id (client_user (client b))))
                 \<and> ((row_direction r = Received)
                        = (user_id (author k) \<noteq> user_id (client_user (client b)))))))"
proof -
  have live: "snd (recordMessage b db m) = db
      \<or> snd (recordMessage b db m) = db @ [recordMessage_data b m]"
    by (auto simp: recordMessage_def split: sum.splits dest: insert_row_Inr)
  obtain new where n: "fst (fetchExistingDMs env b db) = db @ new"
      "\<forall>r\<in>set new. from_history env b (channels_cache (client b)) r"
    using fetchExistingDMs_rows [of env b db] by blast
  have "\<forall>r\<in>set new. \<exists>ch\<in>set (channels_cache (client b)). \<exists>hist.
               history env (channel_id ch) = Inr hist
             \<and> (\<exists>k\<in>set hist. r = history_data b ch k
                 \<and> ((row_direction r = Sent)
                        = (user_id (author k) = user_id (client_user (client b))))
                 \<and> ((row_direction r = Received)
                        = (user_id (author k) \<noteq> user_id (client_user (client b)))))"
  proof
    fix r assume "r \<in> set new"
    with n(2) have "from_history env b (channels_cache (client b)) r" by blast
    then obtain ch hist k where "ch \<in> set (channels_cache (client b))"
      "history env (channel_id ch) = Inr hist" "k \<in> set hist" "r = history_data b ch k"
      by (auto simp: from_history_def)
    then show "\<exists>ch\<in>set (channels_cache (client b)). \<exists>hist.
               history env (channel_id ch) = Inr hist
             \<and> (\<exists>k\<in>set hist. r = history_data b ch k
                 \<and> ((row_direction r = Sent)
                        = (user_id (author k) = user_id (client_user (client b))))
                 \<and> ((row_direction r = Received)
                        = (user_id (author k) \<noteq> user_id (client_user (client b)))))"
      by (intro bexI [of _ ch] exI [of _ hist] conjI bexI [of _ k]) simp_all
  qed
  with n(1) live show ?thesis by auto
qed

text \<open>
  \<open>msg_in\<close>, written by the peer, is stored as received by the live path;
  \<open>msg_out\<close>, written by the session's own user, is stored as sent by the import.
\<close>

theorem direction_classification_witness:
  "snd (recordMessage bot1 [] msg_in) = [row_a1_m1]
   \<and> user_id (author msg_in) \<noteq> user_id (client_user (client bot1))
   \<and> row_direction row_a1_m1 = Received
   \<and> fst (fetchExistingDMs env1 bot1 []) = [row_a1_m1, row_a1_m2]
   \<and> row_direction row_a1_m2 = Sent"
proof -
  have data: "recordMessage_data bot1 msg_in = row_a1_m1"
    by (simp add: recordMessage_data_def is_from_bot_def avatar_url_def scenario_defs)
  then have live: "snd (recordMessage bot1 [] msg_in) = [row_a1_m1]"
    by (simp add: recordMessage_def insert_row_def row_a1_m1_def)
  have other: "user_id (author msg_in) \<noteq> user_id (client_user (client bot1))"
    by (simp add: scenario_defs)
  from direction_classification [of bot1 "[]" msg_in env1]
  have "(row_direction (recordMessage_data bot1 msg_in) = Received)
          = (user_id (author msg_in) \<noteq> user_id (client_user (client bot1)))"
    by (elim conjE)
  with other data have received: "row_direction row_a1_m1 = Received" by simp
  have hist: "fst (fetchExistingDMs env1 bot1 []) = [row_a1_m1, row_a1_m2]"
    by (simp add: fetchExistingDMs_def import_channel_def messages_fetch_def env1_def
        save_existing_def select_single_def insert_row_def history_data_def
        avatar_url_def scenario_defs)
  have "row_direction row_a1_m2 = Sent" by (simp add: row_a1_m2_def)
  with live other received hist show ?thesis by simp
qed

text \<open>
  C10.  The \<open>messageCreate\<close> handler does nothing on an event whose author is the
  session's own user.  Whatever the event, the handler leaves the table as it is or
  appends one row, and that row has direction \<open>Received\<close>.
\<close>

theorem live_rows_received:
  "(user_id (author m) = user_id (client_user (client b)) \<longrightarrow> on_messageCreate b db m = (None, db))
   \<and> (snd (on_messageCreate b db m) = db
      \<or> (snd (on_messageCreate b db m) = db @ [recordMessage_data b m]
         \<and> row_direction (recordMessage_data b m) = Received))"
  by (auto simp: on_messageCreate_def recordMessage_def split: sum.splits dest: insert_row_Inr)

text \<open>The handler drops \<open>msg_out\<close> and stores \<open>msg_in\<close> as received.\<close>

theorem live_rows_received_witness:
  "user_id (author msg_out) = user_id (client_user (client bot1))
   \<and> on_messageCreate bot1 [] msg_out = (None, [])
   \<and> snd (on_messageCreate bot1 [] msg_in) = [row_a1_m1]
   \<and> row_direction row_a1_m1 = Received"
proof -
  have self: "user_id (author msg_out) = user_id (client_user (client bot1))"
    by (simp add: scenario_defs)
  have stored: "snd (on_messageCreate bot1 [] msg_in) = [row_a1_m1]"
    by (simp add: on_messageCreate_def recordMessage_def insert_row_def recordMessage_data_def
        is_from_bot_def avatar_url_def scenario_defs)
  have "row_direction row_a1_m1 = Received" by (simp add: row_a1_m1_def)
  with live_rows_received [of msg_out bot1 "[]"] self stored show ?thesis by simp
qed

subsection \<open>A rejected insert\<close>

text \<open>
  C2, as the code has it.  When a row already holds the id of the message, the insert is
  rejected by the UNIQUE constraint and the table stays as it is.  \<open>recordMessage\<close>
  throws the storage error to its caller, and the \<open>messageCreate\<close> handler catches
  that error.  The import loop either finds the row and continues, or gets the error of
  the insert; in both cases it does not count the message and goes on with the messages
  that follow it.
\<close>

theorem rejected_insert_raises:
  assumes stored: "Some (msg_id m) \<in> set (map discord_message_id db)"
  shows "insert_row db (recordMessage_data b m) = Inl UniqueViolation
       \<and> recordMessage b db m = (Inl (PostgrestError UniqueViolation), db)
       \<and> (channel_type (msg_channel m) = ''DM''
            \<and> user_id (author m) \<noteq> user_id (client_user (client b))
          \<longrightarrow> on_messageCreate b db m = (Some (PostgrestError UniqueViolation), db))
       \<and> insert_row db (history_data b ch m) = Inl UniqueViolation
       \<and> (save_existing b ch db m = (AlreadyExists, db)
          \<or> save_existing b ch db m = (SaveError UniqueViolation, db))
       \<and> import_messages b ch (db, n) (m # ms) = import_messages b ch (db, n) ms
       \<and> import_messages b ch (db, n) [m] = (db, n)"
proof -
  have i1: "insert_row db (recordMessage_data b m) = Inl UniqueViolation"
    using stored by (simp add: insert_row_dup)
  then have r: "recordMessage b db m = (Inl (PostgrestError UniqueViolation), db)"
    by (simp add: recordMessage_def)
  have i2: "insert_row db (history_data b ch m) = Inl UniqueViolation"
    using stored by (simp add: insert_row_dup)
  have s: "save_existing b ch db m = (AlreadyExists, db)
          \<or> save_existing b ch db m = (SaveError UniqueViolation, db)"
    using stored by (rule save_existing_stored)
  have next_message: "import_messages b ch (db, n) (m # ms) = import_messages b ch (db, n) ms"
    for ms
    using stored by (simp add: import_messages_step skipped_def del: import_messages.simps)
  from next_message [of "[]"] have l: "import_messages b ch (db, n) [m] = (db, n)" by simp
  from i1 r i2 s l next_message [of ms] show ?thesis by (simp add: on_messageCreate_def)
qed

text \<open>
  The live event \<open>msg_in\<close> on a table that already holds \<open>m1\<close>; the import of
  \<open>msg_in\<close> and \<open>msg_out\<close> on that table goes on to store \<open>msg_out\<close>.
\<close>

theorem rejected_insert_raises_witness:
  "Some (msg_id msg_in) \<in> set (map discord_message_id [row_a1_m1])
   \<and> recordMessage bot1 [row_a1_m1] msg_in = (Inl (PostgrestError UniqueViolation), [row_a1_m1])
   \<and> on_messageCreate bot1 [row_a1_m1] msg_in = (Some (PostgrestError UniqueViolation), [row_a1_m1])
   \<and> import_messages bot1 dm1 ([row_a1_m1], 0) [msg_in, msg_out] = ([row_a1_m1, row_a1_m2], 1)"
proof -
  have stored: "Some (msg_id msg_in) \<in> set (map discord_message_id [row_a1_m1])"
    by (simp add: msg_in_def row_a1_m1_def)
  have live: "channel_type (msg_channel msg_in) = ''DM''
     \<and> user_id (author msg_in) \<noteq> user_id (client_user (client bot1))"
    by (simp add: scenario_defs)
  have rest: "import_messages bot1 dm1 ([row_a1_m1], 0) [msg_out] = ([row_a1_m1, row_a1_m2], 1)"
    by (simp add: save_existing_def select_single_def insert_row_def history_data_def
        avatar_url_def scenario_defs)
  from rejected_insert_raises [OF stored, of bot1 dm1 0 "[msg_out]"] stored live rest
  show ?thesis by simp
qed

text \<open>
  C2 as stated fails: on that table the insert of \<open>recordMessage\<close> is rejected and
  \<open>recordMessage\<close> ends with the thrown storage error, not with a normal return,
  while the dedupe check of the import ends the same event with \<open>AlreadyExists\<close>.
\<close>

theorem rejected_insert_not_skipped_counterexample:
  "insert_row [row_a1_m1] (recordMessage_data bot1 msg_in) = Inl UniqueViolation
   \<and> fst (recordMessage bot1 [row_a1_m1] msg_in) = Inl (PostgrestError UniqueViolation)
   \<and> fst (recordMessage bot1 [row_a1_m1] msg_in) \<noteq> Inr ()
   \<and> fst (save_existing bot1 dm1 [row_a1_m1] msg_in) = AlreadyExists"
  by (simp add: recordMessage_def save_existing_def select_single_def insert_row_def
      recordMessage_data_def is_from_bot_def scenario_defs)

subsection \<open>The registry\<close>

lemma one_entry:
  "distinct (map fst xs) \<Longrightarrow> map_of xs a = Some v \<Longrightarrow> length (filter (\<lambda>p. fst p = a) xs) = 1"
proof (induction xs)
  case Nil
  then show ?case by simp
next
  case (Cons p xs)
  show ?case
  proof (cases "fst p = a")
    case True
    with Cons.prems have "a \<notin> fst ` set xs" by auto
    then have "filter (\<lambda>p. fst p = a) xs = []" by (auto simp: filter_empty_conv)
    with True show ?thesis by simp
  next
    case False
    with Cons show ?thesis by (cases p) auto
  qed
qed

lemma update_new_key: "map_of xs a = None \<Longrightarrow> AList.update a v xs = xs @ [(a, v)]"
  by (induction xs) (auto split: if_splits)

lemma keys_delete:
  "distinct (map fst xs) \<Longrightarrow> map fst (AList.delete a xs) = remove1 a (map fst xs)"
proof (induction xs)
  case Nil
  show ?case by simp
next
  case (Cons p xs)
  show ?case
  proof (cases "fst p = a")
    case True
    with Cons.prems have "a \<notin> fst ` set xs" by auto
    then have "AList.delete a xs = xs" by (rule delete_id)
    with True show ?thesis by (cases p) simp
  next
    case False
    with Cons show ?thesis by (cases p) (auto simp: AList.delete_eq)
  qed
qed

lemma registry_inv_empty: "registry_inv \<lparr>bots = [], live = []\<rparr>"
  by (simp add: registry_inv_def registry_ok_def)

lemma registry_inv_addBot:
  assumes "registry_inv mgr"
  shows "registry_inv (snd (addBot env mgr a tok))"
proof (cases "map_of (bots mgr) a = None")
  case False
  with assms show ?thesis by (simp add: addBot_def)
next
  case True
  then have fresh: "a \<notin> fst ` set (bots mgr)" by (simp add: map_of_eq_None_iff)
  show ?thesis
  proof (cases "login env tok")
    case (Inl e)
    with True assms show ?thesis by (simp add: addBot_def start_def)
  next
    case (Inr cl)
    with True assms fresh show ?thesis
      by (simp add: addBot_def start_def update_new_key registry_inv_def registry_ok_def)
  qed
qed

lemma registry_inv_removeBot:
  assumes "registry_inv mgr"
  shows "registry_inv (snd (removeBot mgr a))"
proof (cases "map_of (bots mgr) a")
  case None
  with assms show ?thesis by (simp add: removeBot_def)
next
  case (Some b)
  have "list_all (\<lambda>p. accountId (snd p) = fst p) (AList.delete a (bots mgr))"
    using assms by (auto simp: registry_inv_def registry_ok_def list_all_iff AList.delete_eq)
  with Some assms show ?thesis
    by (simp add: removeBot_def registry_inv_def registry_ok_def keys_delete distinct_delete)
qed

lemma addBot_registered:
  "map_of (bots mgr) a \<noteq> None \<Longrightarrow> addBot env mgr a tok = (Inr (), mgr)"
  by (simp add: addBot_def)

lemma addBot_success:
  assumes "fst (addBot env mgr a tok) = Inr ()"
  shows "map_of (bots (snd (addBot env mgr a tok))) a \<noteq> None"
  using assms by (auto simp: addBot_def update_conv' split: sum.splits if_splits)

lemma removeBot_unknown:
  "map_of (bots mgr) a = None \<Longrightarrow> removeBot mgr a = (Inr (), mgr)"
  by (simp add: removeBot_def)

text \<open>
  Calls that do not overlap.  In a state of the registry as \<open>addBot\<close> and
  \<open>removeBot\<close> produce it, let \<open>addBot\<close> return normally for an account.  A second
  \<open>addBot\<close> for that account, begun after the first has returned, returns normally
  and leaves the registry as it is; the registry holds exactly one entry and one live
  client for the account.  \<open>removeBot\<close> for an account without an entry returns
  normally and leaves the registry as it is.
\<close>

theorem registry_idempotence:
  assumes inv: "registry_inv mgr"
    and ok: "fst (addBot env mgr a tok) = Inr ()"
  shows "addBot env' (snd (addBot env mgr a tok)) a tok' = (Inr (), snd (addBot env mgr a tok))
       \<and> length (filter (\<lambda>p. fst p = a) (bots (snd (addBot env mgr a tok)))) = 1
       \<and> count_list (live (snd (addBot env mgr a tok))) a = 1
       \<and> (\<forall>c. map_of (bots mgr) c = None \<longrightarrow> removeBot mgr c = (Inr (), mgr))"
proof -
  let ?mgr1 = "snd (addBot env mgr a tok)"
  from ok have reg: "map_of (bots ?mgr1) a \<noteq> None" by (rule addBot_success)
  then have second: "addBot env' ?mgr1 a tok' = (Inr (), ?mgr1)" by (rule addBot_registered)
  from inv have inv1: "registry_inv ?mgr1" by (rule registry_inv_addBot)
  then have keys1: "distinct (map fst (bots ?mgr1))" and live1: "live ?mgr1 = map fst (bots ?mgr1)"
    by (simp_all add: registry_inv_def)
  from reg obtain b where "map_of (bots ?mgr1) a = Some b" by blast
  with keys1 have one: "length (filter (\<lambda>p. fst p = a) (bots ?mgr1)) = 1" by (rule one_entry)
  have "count_list (map fst (bots ?mgr1)) a = length (filter (\<lambda>p. fst p = a) (bots ?mgr1))"
    by (simp add: count_list_eq_length_filter filter_map comp_def eq_commute)
  with one live1 have conn1: "count_list (live ?mgr1) a = 1" by simp
  from second one conn1 show ?thesis by (simp add: removeBot_unknown)
qed

text \<open>Account \<open>a1\<close> is added twice to the empty registry.\<close>

theorem registry_idempotence_witness:
  "registry_inv mgr0
   \<and> fst (addBot env1 mgr0 ''a1'' ''t1'') = Inr ()
   \<and> snd (addBot env1 mgr0 ''a1'' ''t1'') = mgr1
   \<and> addBot env1 mgr1 ''a1'' ''t1'' = (Inr (), mgr1)
   \<and> length (filter (\<lambda>p. fst p = ''a1'') (bots mgr1)) = 1
   \<and> count_list (live mgr1) ''a1'' = 1
   \<and> removeBot mgr0 ''a1'' = (Inr (), mgr0)"
proof -
  have inv: "registry_inv mgr0" unfolding mgr0_def by (rule registry_inv_empty)
  have first: "addBot env1 mgr0 ''a1'' ''t1'' = (Inr (), mgr1)"
    by (simp add: addBot_def start_def env1_def mgr0_def mgr1_def bot1_def)
  then have ok: "fst (addBot env1 mgr0 ''a1'' ''t1'') = Inr ()" by simp
  have unknown: "map_of (bots mgr0) ''a1'' = None" by (simp add: mgr0_def)
  from registry_idempotence [OF inv ok, of env1 "''t1''"] first inv unknown
  show ?thesis by simp
qed

text \<open>A call that nothing interrupts is its two parts in a row.\<close>

lemma addBot_steps:
  "addBot env mgr a tok =
     (case addBot_begin env mgr a tok of (call, mgr') \<Rightarrow> addBot_resume mgr' a call)"
  by (auto simp: addBot_def addBot_begin_def split: sum.splits)

text \<open>
  Two overlapping calls for an account without an entry, with a token that logs in: both
  return normally, one entry is left, and two clients are live for the account.
\<close>

lemma addBot_overlapping_live:
  assumes "map_of (bots mgr) a = None" and "start env tok a = Inr b"
  shows "fst (addBot_overlapping env mgr a tok) = Inr ()
       \<and> fst (snd (addBot_overlapping env mgr a tok)) = Inr ()
       \<and> live (snd (snd (addBot_overlapping env mgr a tok))) = live mgr @ [a, a]
       \<and> map_of (bots (snd (snd (addBot_overlapping env mgr a tok)))) a = Some b"
  using assms
  by (simp add: addBot_overlapping_def addBot_begin_def update_conv')

text \<open>
  C6.  Calling \<open>addBot\<close> twice for the same account is meant to leave exactly one
  live session and to raise no error, so that duplicate insert notifications are
  tolerated.  The check \<open>has\<close> of \<open>addBot\<close> is there for that, but the entry is
  set only after the awaited \<open>start\<close>, and the code fails it when two calls overlap.  On the empty registry, two insert notifications for account
  \<open>a1\<close>, the second handled while the first call awaits its login, both pass the
  check and both log in: the registry ends with one entry and two live clients for
  \<open>a1\<close>, and the client of the first call is in no entry that \<open>removeBot\<close> could
  stop.
\<close>

theorem overlapping_addBot_two_clients:
  "addBot_overlapping env1 mgr0 ''a1'' ''t1''
     = (Inr (), Inr (), \<lparr>bots = [(''a1'', bot1)], live = [''a1'', ''a1'']\<rparr>)
   \<and> count_list (live (snd (snd (addBot_overlapping env1 mgr0 ''a1'' ''t1'')))) ''a1'' = 2
   \<and> length (bots (snd (snd (addBot_overlapping env1 mgr0 ''a1'' ''t1'')))) = 1"
proof -
  have "addBot_overlapping env1 mgr0 ''a1'' ''t1''
     = (Inr (), Inr (), \<lparr>bots = [(''a1'', bot1)], live = [''a1'', ''a1'']\<rparr>)"
    by (simp add: addBot_overlapping_def addBot_begin_def start_def env1_def mgr0_def bot1_def)
  then show ?thesis by simp
qed

text \<open>
  C7.  When the account has no entry and \<open>start\<close> fails, \<open>addBot\<close> throws the
  value \<open>start\<close> threw and the registry is as before: the account has no entry.
\<close>

theorem failed_start_not_registered:
  assumes new: "map_of (bots mgr) a = None"
    and fails: "start env tok a = Inl e"
  shows "addBot env mgr a tok = (Inl e, mgr)
       \<and> map_of (bots (snd (addBot env mgr a tok))) a = None
       \<and> a \<notin> fst ` set (bots (snd (addBot env mgr a tok)))"
  using new fails by (simp add: addBot_def map_of_eq_None_iff)

text \<open>The backend rejects the token \<open>bad\<close>.\<close>

theorem failed_start_not_registered_witness:
  "map_of (bots mgr1) ''a9'' = None
   \<and> start env1 ''bad'' ''a9'' = Inl (External ''An invalid token was provided.'')
   \<and> addBot env1 mgr1 ''a9'' ''bad'' = (Inl (External ''An invalid token was provided.''), mgr1)"
proof -
  have new: "map_of (bots mgr1) ''a9'' = None" by (simp add: mgr1_def)
  have fails: "start env1 ''bad'' ''a9'' = Inl (External ''An invalid token was provided.'')"
    by (simp add: start_def env1_def)
  from failed_start_not_registered [OF new fails] new fails show ?thesis by simp
qed

subsection \<open>Sending\<close>

lemma api_error_not_no_bot: "api_error r \<noteq> no_bot_found a"
  by (simp add: api_error_def no_bot_found_def)

lemma external_not_no_bot: "External e \<noteq> no_bot_found a"
  by (simp add: no_bot_found_def)

lemma bot_sendMessage_not_no_bot:
  "fst (bot_sendMessage env b db ch c) \<noteq> Inl (no_bot_found a)"
  by (auto simp: bot_sendMessage_def api_error_not_no_bot external_not_no_bot
      split: sum.splits)

text \<open>
  C9.  \<open>sendMessage\<close> of the manager throws the error \<open>No bot found for account a\<close>
  exactly when the registry has no entry for \<open>a\<close>, and then the table is untouched
  and \<open>POST /send-message\<close> replies 500 with that message.  The values that discord.js
  and \<open>fetch\<close> throw are other objects than the error the manager creates.
\<close>

theorem not_found_iff:
  "(fst (sendMessage env mgr db a userId c) = Inl (no_bot_found a))
     = (map_of (bots mgr) a = None)
   \<and> (map_of (bots mgr) a = None \<longrightarrow> sendMessage env mgr db a userId c = (Inl (no_bot_found a), db))
   \<and> (map_of (bots mgr) a = None \<and> a \<noteq> [] \<and> userId \<noteq> [] \<and> c \<noteq> [] \<longrightarrow>
        post_send_message env mgr db (Some a) (Some userId) (Some c)
          = ((500, Error_json (''No bot found for account '' @ a)), db))"
proof -
  have "fst (sendMessage env mgr db a userId c) \<noteq> Inl (no_bot_found a)"
    if "map_of (bots mgr) a = Some b" for b
    using that bot_sendMessage_not_no_bot [of env b db _ c a]
    by (auto simp: sendMessage_def external_not_no_bot split: sum.splits)
  moreover have "sendMessage env mgr db a userId c = (Inl (no_bot_found a), db)"
    if "map_of (bots mgr) a = None"
    using that by (simp add: sendMessage_def)
  ultimately show ?thesis
    by (cases "map_of (bots mgr) a") (auto simp: post_send_message_def no_bot_found_def)
qed

text \<open>No session for \<open>zz\<close>; a session for \<open>a1\<close>, whose send fails with 429.\<close>

theorem not_found_iff_witness:
  "map_of (bots mgr1) ''zz'' = None
   \<and> sendMessage env1 mgr1 [] ''zz'' ''200'' ''hello''
       = (Inl (Error ''No bot found for account zz''), [])
   \<and> map_of (bots mgr1) ''a1'' \<noteq> None
   \<and> fst (sendMessage env429 mgr1 [] ''a1'' ''200'' ''hello'') \<noteq> Inl (no_bot_found ''a1'')"
proof -
  have unknown: "map_of (bots mgr1) ''zz'' = None" by (simp add: mgr1_def)
  have known: "map_of (bots mgr1) ''a1'' \<noteq> None" by (simp add: mgr1_def)
  from not_found_iff [of env1 mgr1 "[]" "''zz''" "''200''" "''hello''"]
    not_found_iff [of env429 mgr1 "[]" "''a1''" "''200''" "''hello''"] unknown known
  show ?thesis by (simp add: no_bot_found_def)
qed

lemma sent_data_sel [simp]:
  "account_id (sent_data b t d rcp) = accountId b"
  "discord_message_id (sent_data b t d rcp) = j_id d"
  "discord_user_id (sent_data b t d rcp) = user_id rcp"
  "row_direction (sent_data b t d rcp) = Sent"
  "row_content (sent_data b t d rcp) = j_content d"
  by (simp_all add: sent_data_def)

lemma insert_row_accepts:
  "discord_message_id r = None \<or> discord_message_id r \<notin> set (map discord_message_id db)
   \<Longrightarrow> insert_row db r = Inr (db @ [r])"
  by (auto simp: insert_row_def split: option.splits)

lemma recordSentMessage_cached:
  assumes "find (\<lambda>x. channel_id x = cid) (channels_cache (client b)) = Some ch"
    and "channel_type ch = ''DM''"
    and "j_id d = None \<or> j_id d \<notin> set (map discord_message_id db)"
  shows "recordSentMessage b t db d cid = (Inr (), db @ [sent_data b t d (recipient ch)])"
  using assms by (simp add: recordSentMessage_def insert_row_accepts)

lemma recordSentMessage_rows:
  "snd (recordSentMessage b t db d cid) = db
   \<or> (\<exists>ch::channel. snd (recordSentMessage b t db d cid) = db @ [sent_data b t d (recipient ch)])"
proof (cases "find (\<lambda>x. channel_id x = cid) (channels_cache (client b))")
  case None
  then show ?thesis by (simp add: recordSentMessage_def)
next
  case (Some ch)
  show ?thesis
  proof (cases "insert_row db (sent_data b t d (recipient ch))")
    case (Inl e)
    with Some show ?thesis by (simp add: recordSentMessage_def)
  next
    case (Inr db1)
    then have "db1 = db @ [sent_data b t d (recipient ch)]" by (rule insert_row_Inr)
    with Some Inr have "snd (recordSentMessage b t db d cid) = db
        \<or> snd (recordSentMessage b t db d cid) = db @ [sent_data b t d (recipient ch)]"
      by (simp add: recordSentMessage_def)
    then show ?thesis by blast
  qed
qed

lemma registry_ok_lookup:
  "registry_ok mgr \<Longrightarrow> map_of (bots mgr) a = Some b \<Longrightarrow> accountId b = a"
proof -
  assume ok: "registry_ok mgr" and "map_of (bots mgr) a = Some b"
  then have "(a, b) \<in> set (bots mgr)" by (auto dest: map_of_SomeD)
  with ok show ?thesis by (auto simp: registry_ok_def list_all_iff)
qed

lemma bot_sendMessage_success:
  assumes "bot_sendMessage env b db cid c = (Inr res, db')"
  shows "\<exists>r d. http_post env (token b) cid (make_payload env c) = Inr r \<and> response_ok r
     \<and> json r = Inr d
     \<and> res = \<lparr>success = True, result_message = ''Message sent successfully'',
               messageId = j_id d, result_content = j_content d\<rparr>
     \<and> db' = snd (recordSentMessage b (now env) db d cid)"
  using assms by (auto simp: bot_sendMessage_def split: sum.splits if_splits)

lemma sendMessage_success:
  assumes "sendMessage env mgr db a userId c = (Inr res, db')"
  shows "\<exists>b u dmc. map_of (bots mgr) a = Some b \<and> users_fetch env (token b) userId = Inr u
     \<and> createDM env (token b) u = Inr dmc
     \<and> bot_sendMessage env b db (channel_id dmc) c = (Inr res, db')"
  using assms by (auto simp: sendMessage_def split: option.splits sum.splits)

text \<open>
  C5, as the code has it.  Let every session be filed under its own account, and let
  discord.js resolve the peer as \<open>library_resolves\<close> says.  A \<open>sendMessage\<close> that
  returns has received a 2xx response with a body, and its result carries the id and the
  content of that body.  When no row holds that id yet, the table has exactly one more
  row: direction \<open>Sent\<close>, the returned id, the account and the peer of the call, the
  returned content.
\<close>

theorem send_and_record:
  assumes sent: "sendMessage env mgr db a userId c = (Inr res, db')"
    and reg: "registry_ok mgr"
    and lib: "library_resolves env mgr a userId"
    and fresh: "messageId res = None \<or> messageId res \<notin> set (map discord_message_id db)"
  shows "(\<exists>b u dmc r d.
            map_of (bots mgr) a = Some b
          \<and> users_fetch env (token b) userId = Inr u
          \<and> createDM env (token b) u = Inr dmc
          \<and> http_post env (token b) (channel_id dmc) (make_payload env c) = Inr r
          \<and> response_ok r \<and> json r = Inr d
          \<and> messageId res = j_id d \<and> result_content res = j_content d)
       \<and> (\<exists>sent_row. db' = db @ [sent_row]
          \<and> row_direction sent_row = Sent
          \<and> discord_message_id sent_row = messageId res
          \<and> account_id sent_row = a
          \<and> discord_user_id sent_row = userId
          \<and> row_content sent_row = result_content res)"
proof -
  from sendMessage_success [OF sent] obtain b u dmc where
    look: "map_of (bots mgr) a = Some b" and u: "users_fetch env (token b) userId = Inr u"
    and dm: "createDM env (token b) u = Inr dmc"
    and bs: "bot_sendMessage env b db (channel_id dmc) c = (Inr res, db')" by blast
  from bot_sendMessage_success [OF bs] obtain r d where
    post: "http_post env (token b) (channel_id dmc) (make_payload env c) = Inr r"
    and ok: "response_ok r" and body: "json r = Inr d"
    and res: "res = \<lparr>success = True, result_message = ''Message sent successfully'',
               messageId = j_id d, result_content = j_content d\<rparr>"
    and db': "db' = snd (recordSentMessage b (now env) db d (channel_id dmc))" by blast
  from res have fields: "messageId res = j_id d" "result_content res = j_content d" by simp_all
  from lib look u dm have cached:
    "find (\<lambda>x. channel_id x = channel_id dmc) (channels_cache (client b)) = Some dmc"
    and isdm: "channel_type dmc = ''DM''" and peer: "user_id (recipient dmc) = userId"
    by (simp_all add: library_resolves_def)
  from fresh fields have fresh_d: "j_id d = None \<or> j_id d \<notin> set (map discord_message_id db)"
    by simp
  let ?row = "sent_data b (now env) d (recipient dmc)"
  have stored: "db' = db @ [?row]"
    unfolding db' using cached isdm fresh_d by (simp add: recordSentMessage_cached)
  have own: "accountId b = a" using reg look by (rule registry_ok_lookup)
  have first: "\<exists>b u dmc r d.
            map_of (bots mgr) a = Some b
          \<and> users_fetch env (token b) userId = Inr u
          \<and> createDM env (token b) u = Inr dmc
          \<and> http_post env (token b) (channel_id dmc) (make_payload env c) = Inr r
          \<and> response_ok r \<and> json r = Inr d
          \<and> messageId res = j_id d \<and> result_content res = j_content d"
    using look u dm post ok body fields by blast
  have second: "db' = db @ [?row]
          \<and> row_direction ?row = Sent
          \<and> discord_message_id ?row = messageId res
          \<and> account_id ?row = a
          \<and> discord_user_id ?row = userId
          \<and> row_content ?row = result_content res"
    using stored own peer fields by simp
  then have "\<exists>sent_row. db' = db @ [sent_row]
          \<and> row_direction sent_row = Sent
          \<and> discord_message_id sent_row = messageId res
          \<and> account_id sent_row = a
          \<and> discord_user_id sent_row = userId
          \<and> row_content sent_row = result_content res"
    by (rule exI)
  with first show ?thesis by (rule conjI)
qed

lemma sent_m2: "sendMessage env1 mgr1 [] ''a1'' ''200'' ''hello'' = (Inr result_m2, [row_a1_m2])"
  by (simp add: sendMessage_def bot_sendMessage_def recordSentMessage_def insert_row_def
      sent_data_def response_ok_def make_payload_def avatar_url_def result_m2_def
      env1_def mgr1_def scenario_defs)

lemma scenario_registry: "registry_ok mgr1"
  by (simp add: registry_ok_def mgr1_def bot1_def)

lemma scenario_library: "library_resolves env1 mgr1 ''a1'' ''200''"
  by (simp add: library_resolves_def env1_def mgr1_def scenario_defs)

text \<open>Account \<open>a1\<close> sends \<open>hello\<close> to user 200 on an empty table.\<close>

theorem send_and_record_witness:
  "sendMessage env1 mgr1 [] ''a1'' ''200'' ''hello'' = (Inr result_m2, [row_a1_m2])
   \<and> registry_ok mgr1
   \<and> library_resolves env1 mgr1 ''a1'' ''200''
   \<and> messageId result_m2 \<notin> set (map discord_message_id [])
   \<and> (\<exists>sent_row. [row_a1_m2] = [] @ [sent_row]
          \<and> row_direction sent_row = Sent
          \<and> discord_message_id sent_row = messageId result_m2
          \<and> account_id sent_row = ''a1''
          \<and> discord_user_id sent_row = ''200''
          \<and> row_content sent_row = result_content result_m2)"
proof -
  have fresh: "messageId result_m2 = None
      \<or> messageId result_m2 \<notin> set (map discord_message_id [])"
    by simp
  from send_and_record [OF sent_m2 scenario_registry scenario_library fresh]
  have "\<exists>sent_row. [row_a1_m2] = [] @ [sent_row]
          \<and> row_direction sent_row = Sent
          \<and> discord_message_id sent_row = messageId result_m2
          \<and> account_id sent_row = ''a1''
          \<and> discord_user_id sent_row = ''200''
          \<and> row_content sent_row = result_content result_m2"
    by (elim conjE)
  with sent_m2 scenario_registry scenario_library show ?thesis by simp
qed

text \<open>
  C5 as stated fails.  Account \<open>a2\<close>, the session of the peer, has stored \<open>m2\<close>
  from its live stream before the sender records it.  The registry and the library are
  as above.  The send of \<open>a1\<close> returns the id and the content, the insert is rejected,
  and the table holds no row of account \<open>a1\<close> and no sent row.
\<close>

theorem send_not_recorded_counterexample:
  "unique_ids [row_a2_m2]
   \<and> registry_ok mgr1
   \<and> library_resolves env1 mgr1 ''a1'' ''200''
   \<and> sendMessage env1 mgr1 [row_a2_m2] ''a1'' ''200'' ''hello'' = (Inr result_m2, [row_a2_m2])
   \<and> rows_for [row_a2_m2] ''a1'' ''m2'' = []
   \<and> map row_direction [row_a2_m2] = [Received]"
proof -
  have "unique_ids [row_a2_m2]
   \<and> sendMessage env1 mgr1 [row_a2_m2] ''a1'' ''200'' ''hello'' = (Inr result_m2, [row_a2_m2])
   \<and> rows_for [row_a2_m2] ''a1'' ''m2'' = []
   \<and> map row_direction [row_a2_m2] = [Received]"
    by (simp add: sendMessage_def bot_sendMessage_def recordSentMessage_def insert_row_def
      sent_data_def response_ok_def make_payload_def avatar_url_def result_m2_def
      unique_ids_def rows_for_def row_a2_m2_def env1_def mgr1_def scenario_defs)
  with scenario_registry scenario_library show ?thesis by simp
qed

text \<open>
  C8, as the code has it.  Every response outside 200..299, a 429 among them, makes
  \<open>sendMessage\<close> throw \<open>new Error\<close> with the message \<open>Discord API error\<close>, the
  status and the message of the body or the status text; the table is untouched, and
  \<open>POST /send-message\<close> replies 500 with that message.  Rate limiting shows in the
  number 429 inside the message and nowhere else.
\<close>

theorem non_ok_response_error:
  assumes reg: "map_of (bots mgr) a = Some b"
    and u: "users_fetch env (token b) userId = Inr u"
    and dm: "createDM env (token b) u = Inr dmc"
    and post: "http_post env (token b) (channel_id dmc) (make_payload env c) = Inr r"
    and bad: "\<not> response_ok r"
  shows "sendMessage env mgr db a userId c
           = (Inl (Error (''Discord API error '' @ show_nat (status r) @ '': '' @ error_detail r)), db)
       \<and> (a \<noteq> [] \<and> userId \<noteq> [] \<and> c \<noteq> [] \<longrightarrow>
            post_send_message env mgr db (Some a) (Some userId) (Some c)
              = ((500, Error_json (''Discord API error '' @ show_nat (status r) @ '': ''
                                    @ error_detail r)), db))"
  using assms
  by (simp add: sendMessage_def bot_sendMessage_def api_error_def post_send_message_def)

lemma show_nat_429: "show_nat 429 = ''429''"
  by code_simp

lemma show_nat_503: "show_nat 503 = ''503''"
  by code_simp

lemma lookup_a1: "map_of (bots mgr1) ''a1'' = Some bot1"
  by (simp add: mgr1_def)

text \<open>The backend answers the POST of account \<open>a1\<close> with 429.\<close>

theorem non_ok_response_error_witness:
  "map_of (bots mgr1) ''a1'' = Some bot1
   \<and> \<not> response_ok resp429
   \<and> sendMessage env429 mgr1 [] ''a1'' ''200'' ''hello''
       = (Inl (Error ''Discord API error 429: You are being rate limited.''), [])"
proof -
  have u: "users_fetch env429 (token bot1) ''200'' = Inr peer1"
    by (simp add: env429_def env1_def)
  have dm: "createDM env429 (token bot1) peer1 = Inr dm1"
    by (simp add: env429_def env1_def)
  have post: "http_post env429 (token bot1) (channel_id dm1) (make_payload env429 ''hello'')
                = Inr resp429"
    by (simp add: env429_def)
  have bad: "\<not> response_ok resp429" by (simp add: response_ok_def resp429_def)
  have shown: "''Discord API error '' @ show_nat (status resp429) @ '': '' @ error_detail resp429
               = ''Discord API error 429: You are being rate limited.''"
    by (simp add: resp429_def error_detail_def show_nat_429)
  from non_ok_response_error [OF lookup_a1 u dm post bad, of "[]"] lookup_a1 bad show ?thesis
    unfolding shown by simp
qed

text \<open>
  C8 as stated fails: a 429 and a 503 give the same kind of thrown value, an \<open>Error\<close>
  that differs in its message text only, and the same reply status 500.
\<close>

theorem rate_limit_not_distinct_counterexample:
  "sendMessage env429 mgr1 [] ''a1'' ''200'' ''hello''
     = (Inl (Error ''Discord API error 429: You are being rate limited.''), [])
   \<and> sendMessage env503 mgr1 [] ''a1'' ''200'' ''hello''
     = (Inl (Error ''Discord API error 503: Service Unavailable''), [])
   \<and> post_send_message env429 mgr1 [] (Some ''a1'') (Some ''200'') (Some ''hello'')
     = ((500, Error_json ''Discord API error 429: You are being rate limited.''), [])
   \<and> post_send_message env503 mgr1 [] (Some ''a1'') (Some ''200'') (Some ''hello'')
     = ((500, Error_json ''Discord API error 503: Service Unavailable''), [])"
  by (simp add: post_send_message_def sendMessage_def bot_sendMessage_def api_error_def
      error_detail_def response_ok_def show_nat_429 show_nat_503 resp429_def resp503_def
      env429_def env503_def env1_def mgr1_def scenario_defs)

end
